theory Spec2Isabelle
  imports Complex_Main
begin

section \<open>JavaScript values used by the trackers\<close>

text \<open>
  A JavaScript number is a double. The model keeps the exact value of a finite double as
  a rational and the three non-finite values apart; negative zero is identified with
  zero (\<open>-0 === 0\<close> holds, and both behave alike in every operation used here).
  Sums that the source computes in floating point (\<open>pauseTime\<close>, \<open>bufferDuration\<close>)
  are exact in the model.
\<close>

datatype number = Finite rat | NaN | Infinity | NegInfinity

datatype js_value =
    JUndefined
  | JNull
  | JBoolean bool
  | JNumber number
  | JString string
  | JFunction nat
  | JObject

text \<open>
  The \<open>typeof\<close> operator. \<open>JObject\<close> stands for any object that is not a function;
  what it holds is never read.
\<close>

fun typeof :: "js_value \<Rightarrow> string" where
  "typeof JUndefined = ''undefined''"
| "typeof JNull = ''object''"
| "typeof (JBoolean b) = ''boolean''"
| "typeof (JNumber n) = ''number''"
| "typeof (JString s) = ''string''"
| "typeof (JFunction f) = ''function''"
| "typeof JObject = ''object''"

text \<open>
  \<open>x.toFixed(0)\<close> read back with unary \<open>+\<close>: the integer nearest to \<open>x\<close>, a tie
  going away from zero (\<open>toFixed\<close> rounds the absolute value, picking the larger
  candidate, and puts the sign back).
\<close>

definition toFixed0 :: "rat \<Rightarrow> int" where
  "toFixed0 x = (if x < 0 then - \<lfloor>- x + 1 / 2\<rfloor> else \<lfloor>x + 1 / 2\<rfloor>)"

text \<open>The same on a number that may be \<open>NaN\<close> or infinite: those print and parse as themselves.\<close>

fun toFixed0_number :: "number \<Rightarrow> number" where
  "toFixed0_number (Finite x) = Finite (of_int (toFixed0 x))"
| "toFixed0_number NaN = NaN"
| "toFixed0_number Infinity = Infinity"
| "toFixed0_number NegInfinity = NegInfinity"

text \<open>\<open>+x.toFixed(3)\<close>: rounding to three decimal places.\<close>

definition toFixed3 :: "rat \<Rightarrow> rat" where
  "toFixed3 x =
     (if x < 0 then - (of_int \<lfloor>- x * 1000 + 1 / 2\<rfloor> / 1000)
      else of_int \<lfloor>x * 1000 + 1 / 2\<rfloor> / 1000)"

text \<open>The comparison \<open>x > 0\<close>: false on \<open>NaN\<close>.\<close>

fun gt0 :: "number \<Rightarrow> bool" where
  "gt0 (Finite x) = (0 < x)"
| "gt0 NaN = False"
| "gt0 Infinity = True"
| "gt0 NegInfinity = False"

text \<open>
  The remainder \<open>n % d\<close> for a finite dividend: \<open>NaN\<close> when the divisor is zero or
  \<open>NaN\<close>, the dividend itself when the divisor is infinite, and otherwise the dividend
  minus the divisor times the quotient truncated towards zero.
\<close>

definition js_truncate :: "rat \<Rightarrow> int" where
  "js_truncate x = (if x < 0 then \<lceil>x\<rceil> else \<lfloor>x\<rfloor>)"

fun js_rem :: "rat \<Rightarrow> number \<Rightarrow> number" where
  "js_rem n (Finite d) =
     (if d = 0 then NaN else Finite (n - d * of_int (js_truncate (n / d))))"
| "js_rem n NaN = NaN"
| "js_rem n Infinity = Finite n"
| "js_rem n NegInfinity = Finite n"

section \<open>Events\<close>

text \<open>
  The payload \<open>{pauseTime, pauseCount}\<close> of \<open>tracking:pause\<close> and
  \<open>tracking:unpause\<close>. The closures of both trackers hold variables of the same two
  names, so their states extend this record.
\<close>

record pause_data =
  pauseTime :: rat
  pauseCount :: int

datatype tracking_event =
    TrackingPause pause_data
  | TrackingUnpause pause_data
  | TrackingSeek int
  | TrackingBuffered int rat
  | TrackingFirstplay rat

text \<open>
  What the handlers are called with. \<open>Pause\<close> carries what the player answers when the
  handler queries it: \<open>None\<close> where \<open>player.seeking\<close> (or \<open>player.scrubbing\<close>) is
  not a function, \<open>Some b\<close> where calling it gives a value of truthiness \<open>b\<close>.
  \<open>Timeupdate\<close> carries \<open>player.currentTime()\<close>, a finite number (video.js returns
  0 where the tech has none), \<open>Loadeddata\<close> carries \<open>player.duration()\<close>.
  \<open>Timeout h\<close> is the host's event loop running the callback of the timeout with
  handle \<open>h\<close>; \<open>Beforeunload\<close> is the window's event; \<open>Tracking\<close> is an event some
  tracker triggered on the player.
\<close>

datatype event =
    Play
  | Pause "bool option" "bool option"
  | Dispose
  | Loadstart
  | Ended
  | Timeupdate rat
  | Loadeddata number
  | Beforeunload
  | Timeout nat
  | Tracking tracking_event

section \<open>PauseTracking\<close>

text \<open>
  The closure's variables \<open>pauseTime\<close>, \<open>pauseCount\<close>, \<open>initPauseTime\<close>, \<open>timer\<close>
  and \<open>locked\<close>, and the part of the host the closure acts on: the timeouts that are
  scheduled and have neither run nor been cleared (handle and the time from which the
  callback may run, oldest first), and the handle the next \<open>setTimeout\<close> returns.
  Times are \<open>Date.now()\<close> readings in milliseconds.
\<close>

record pause_tracking = pause_data +
  initPauseTime :: "int option"
  timer :: "nat option"
  locked :: bool
  timeouts :: "(nat \<times> int) list"
  next_handle :: nat

text \<open>The state when the constructor returns. Handles are positive integers.\<close>

definition PauseTracking :: pause_tracking where
  "PauseTracking =
     \<lparr>pauseTime = 0, pauseCount = 0, initPauseTime = None, timer = None, locked = False,
      timeouts = [], next_handle = 1\<rparr>"

definition setTimeout :: "int \<Rightarrow> int \<Rightarrow> pause_tracking \<Rightarrow> nat \<times> pause_tracking" where
  "setTimeout delay now w =
     (next_handle w,
      w\<lparr>timeouts := timeouts w @ [(next_handle w, now + delay)],
        next_handle := Suc (next_handle w)\<rparr>)"

definition clearTimeout :: "nat \<Rightarrow> pause_tracking \<Rightarrow> pause_tracking" where
  "clearTimeout h w = w\<lparr>timeouts := filter (\<lambda>p. fst p \<noteq> h) (timeouts w)\<rparr>"

text \<open>\<open>reset\<close> of PauseTracking; \<open>if (timer)\<close> is false on \<open>null\<close> and on 0.\<close>

definition PauseTracking_reset :: "pause_tracking \<Rightarrow> pause_tracking" where
  "PauseTracking_reset w =
     (let w1 = (case timer w of
                  None \<Rightarrow> w
                | Some h \<Rightarrow> if h \<noteq> 0 then clearTimeout h w else w)
      in w1\<lparr>pauseTime := 0, pauseCount := 0, initPauseTime := None, locked := False\<rparr>)"

definition isSeeking :: "bool option \<Rightarrow> bool option \<Rightarrow> bool" where
  "isSeeking seeking scrubbing =
     ((case seeking of None \<Rightarrow> False | Some b \<Rightarrow> b) \<or>
      (case scrubbing of None \<Rightarrow> False | Some b \<Rightarrow> b))"

text \<open>The callback the pause handler passes to \<open>setTimeout\<close>, run at time \<open>now\<close>.\<close>

definition pause_timeout :: "int \<Rightarrow> pause_tracking \<Rightarrow> pause_tracking \<times> tracking_event list" where
  "pause_timeout now w =
     (let w1 = w\<lparr>pauseCount := pauseCount w + 1, initPauseTime := Some now\<rparr>
      in (w1, [TrackingPause \<lparr>pauseTime = pauseTime w1, pauseCount = pauseCount w1\<rparr>]))"

text \<open>
  The handlers PauseTracking registers, by event, run at time \<open>now\<close>; the result is the
  new state and the events triggered on the player. The event loop runs a timeout's
  callback once, not before its time, and only while it is scheduled; \<open>Timeout h\<close> is
  without effect otherwise.
\<close>

fun PauseTracking_on :: "int \<Rightarrow> event \<Rightarrow> pause_tracking \<Rightarrow> pause_tracking \<times> tracking_event list" where
  "PauseTracking_on now Dispose w = (PauseTracking_reset w, [])"
| "PauseTracking_on now Loadstart w = (PauseTracking_reset w, [])"
| "PauseTracking_on now Ended w = (PauseTracking_reset w, [])"
| "PauseTracking_on now Play w =
     (case initPauseTime w of
        None \<Rightarrow> (w, [])
      | Some t0 \<Rightarrow>
          (let w1 = w\<lparr>pauseTime := pauseTime w + of_int (now - t0) / 1000\<rparr>
           in (w1\<lparr>initPauseTime := None\<rparr>,
               [TrackingUnpause \<lparr>pauseTime = pauseTime w1, pauseCount = pauseCount w1\<rparr>])))"
| "PauseTracking_on now (Pause seeking scrubbing) w =
     (if isSeeking seeking scrubbing \<or> locked w then (w, [])
      else (let (h, w1) = setTimeout 300 now w in (w1\<lparr>timer := Some h\<rparr>, [])))"
| "PauseTracking_on now (Timeout h) w =
     (case map_of (timeouts w) h of
        None \<Rightarrow> (w, [])
      | Some due \<Rightarrow>
          if due \<le> now then pause_timeout now (clearTimeout h w) else (w, []))"
| "PauseTracking_on now e w = (w, [])"

text \<open>
  A run: the events in order, each with the time at which its handlers run; the result is
  the final state and the triggered events, each with the time of its triggering.
\<close>

fun PauseTracking_run ::
  "pause_tracking \<Rightarrow> (int \<times> event) list \<Rightarrow> pause_tracking \<times> (int \<times> tracking_event) list" where
  "PauseTracking_run w [] = (w, [])"
| "PauseTracking_run w ((now, e) # es) =
     (let (w1, out) = PauseTracking_on now e w;
          (w2, outs) = PauseTracking_run w1 es
      in (w2, map (Pair now) out @ outs))"

text \<open>
  The runs a host can produce from time \<open>t\<close> on: the clock does not go back, and a
  timeout's callback runs only while the timeout is scheduled and its time has come.
\<close>

fun admissible :: "int \<Rightarrow> pause_tracking \<Rightarrow> (int \<times> event) list \<Rightarrow> bool" where
  "admissible t w [] = True"
| "admissible t w ((now, e) # es) =
     (t \<le> now \<and>
      (case e of
         Timeout h \<Rightarrow> (case map_of (timeouts w) h of None \<Rightarrow> False | Some due \<Rightarrow> due \<le> now)
       | _ \<Rightarrow> True) \<and>
      admissible now (fst (PauseTracking_on now e w)) es)"

section \<open>PerformanceTracking\<close>

text \<open>
  The object \<open>data\<close> that \<open>trigger\<close> builds: the payload's two fields and the seven
  others. The source names the identifier \<open>session\<close>.
\<close>

record snapshot = pause_data +
  session :: string
  seekCount :: int
  bufferCount :: int
  totalDuration :: number
  watchedDuration :: nat
  bufferDuration :: rat
  initialLoadTime :: rat

text \<open>
  The closure's variables: those that go into \<open>data\<close>, \<open>timestamps\<close>, the constants
  \<open>player\<close> (the \<open>this\<close> of the constructor call), \<open>triggerOnPause\<close> and
  \<open>triggerInterval\<close>, and \<open>config.performance\<close>, which the code reads at every call
  and never writes. \<open>beforeunload_listener\<close> is the host's part: whether
  \<open>triggerAndReset\<close> is registered on the window.
\<close>

record performance_tracking = snapshot +
  timestamps :: "int list"
  player :: nat
  performance :: js_value
  triggerOnPause :: bool
  triggerInterval :: number
  beforeunload_listener :: bool

text \<open>One call \<open>callee.call(this_arg, data)\<close>.\<close>

record call =
  callee :: js_value
  this_arg :: nat
  data :: snapshot

text \<open>
  The argument \<open>config\<close>: \<open>undefined\<close>, \<open>null\<close>, or a value whose properties can be
  read, given by the properties it has (the first entry of a name counts). A property
  that is absent reads as \<open>undefined\<close>.
\<close>

datatype config = ConfigUndefined | ConfigNull | ConfigObject "(string \<times> js_value) list"

definition property :: "(string \<times> js_value) list \<Rightarrow> string \<Rightarrow> js_value" where
  "property ps k = (case map_of ps k of None \<Rightarrow> JUndefined | Some v \<Rightarrow> v)"

datatype error = TypeError

text \<open>
  The constructor, called on player \<open>this\<close>. \<open>has_addEventListener\<close> is
  \<open>typeof window.addEventListener === 'function'\<close> and \<open>u\<close> is what \<open>v4()\<close> returns.
  \<open>None\<close> is the early return: no variable exists and no handler is registered.
  Reading a property of \<open>null\<close> throws. The code runs in a browser, where \<open>window\<close>
  exists, and the listener on \<open>beforeunload\<close> is added only where
  \<open>has_addEventListener\<close> holds.
\<close>

definition PerformanceTracking ::
  "nat \<Rightarrow> config \<Rightarrow> bool \<Rightarrow> string \<Rightarrow> error + performance_tracking option" where
  "PerformanceTracking this cfg has_addEventListener u =
     (case cfg of
        ConfigUndefined \<Rightarrow> Inr None
      | ConfigNull \<Rightarrow> Inl TypeError
      | ConfigObject ps \<Rightarrow>
          if typeof (property ps ''performance'') \<noteq> ''function'' then Inr None
          else Inr (Some
            \<lparr>pauseTime = 0, pauseCount = 0, session = u, seekCount = 0, bufferCount = 0,
             totalDuration = Finite 0, watchedDuration = 0, bufferDuration = 0,
             initialLoadTime = 0, timestamps = [], player = this,
             performance = property ps ''performance'',
             triggerOnPause =
               (case property ps ''triggerOnPause'' of JBoolean b \<Rightarrow> b | _ \<Rightarrow> True),
             triggerInterval =
               (case property ps ''triggerInterval'' of JNumber n \<Rightarrow> n | _ \<Rightarrow> Finite 10),
             beforeunload_listener = has_addEventListener\<rparr>))"

text \<open>\<open>reset\<close> of PerformanceTracking; \<open>u\<close> is what \<open>v4()\<close> returns.\<close>

definition PerformanceTracking_reset :: "string \<Rightarrow> performance_tracking \<Rightarrow> performance_tracking" where
  "PerformanceTracking_reset u s =
     s\<lparr>session := u, seekCount := 0, pauseTime := 0, pauseCount := 0, bufferCount := 0,
       bufferDuration := 0, timestamps := [], totalDuration := Finite 0,
       watchedDuration := 0, initialLoadTime := 0\<rparr>"

text \<open>\<open>trigger\<close>: the calls it makes.\<close>

definition trigger :: "performance_tracking \<Rightarrow> call list" where
  "trigger s =
     [\<lparr>callee = performance s, this_arg = player s,
       data = \<lparr>pauseTime = pauseTime s, pauseCount = pauseCount s, session = session s,
               seekCount = seekCount s, bufferCount = bufferCount s,
               totalDuration = totalDuration s, watchedDuration = watchedDuration s,
               bufferDuration = bufferDuration s, initialLoadTime = initialLoadTime s\<rparr>\<rparr>]"

definition triggerAndReset :: "string \<Rightarrow> performance_tracking \<Rightarrow> performance_tracking \<times> call list" where
  "triggerAndReset u s = (PerformanceTracking_reset u s, trigger s)"

text \<open>
  The handlers PerformanceTracking registers, by event; the result is the new state and
  the calls made, in order. On \<open>dispose\<close> the handler that removes the window's listener
  is registered before \<open>triggerAndReset\<close> and runs first.
\<close>

fun PerformanceTracking_on ::
  "string \<Rightarrow> event \<Rightarrow> performance_tracking \<Rightarrow> performance_tracking \<times> call list" where
  "PerformanceTracking_on u Beforeunload s =
     (if beforeunload_listener s then triggerAndReset u s else (s, []))"
| "PerformanceTracking_on u Loadstart s =
     (PerformanceTracking_reset u s, if gt0 (totalDuration s) then trigger s else [])"
| "PerformanceTracking_on u Ended s = triggerAndReset u s"
| "PerformanceTracking_on u Dispose s = triggerAndReset u (s\<lparr>beforeunload_listener := False\<rparr>)"
| "PerformanceTracking_on u (Timeupdate t) s =
     (let curTime = toFixed0 t in
      if curTime \<notin> set (timestamps s) then
        (let s1 = s\<lparr>timestamps := timestamps s @ [curTime]\<rparr>;
             s2 = s1\<lparr>watchedDuration := length (timestamps s1)\<rparr>
         in (s2, if js_rem (of_nat (watchedDuration s2)) (triggerInterval s2) = Finite 0
                 then trigger s2 else []))
      else (s, []))"
| "PerformanceTracking_on u (Loadeddata d) s = (s\<lparr>totalDuration := toFixed0_number d\<rparr>, [])"
| "PerformanceTracking_on u (Tracking (TrackingSeek n)) s = (s\<lparr>seekCount := n\<rparr>, [])"
| "PerformanceTracking_on u (Tracking (TrackingPause d)) s =
     (let s1 = s\<lparr>pauseCount := pauseCount d\<rparr>
      in (s1, if triggerOnPause s1 then trigger s1 else []))"
| "PerformanceTracking_on u (Tracking (TrackingUnpause d)) s =
     (s\<lparr>pauseTime := pauseTime d, pauseCount := pauseCount d\<rparr>, [])"
| "PerformanceTracking_on u (Tracking (TrackingBuffered n secondsToLoad)) s =
     (s\<lparr>bufferCount := n, bufferDuration := toFixed3 (bufferDuration s + secondsToLoad)\<rparr>, [])"
| "PerformanceTracking_on u (Tracking (TrackingFirstplay secondsToLoad)) s =
     (s\<lparr>initialLoadTime := secondsToLoad\<rparr>, [])"
| "PerformanceTracking_on u e s = (s, [])"

text \<open>
  A run of the handlers: the events in order, each with what \<open>v4()\<close> returns while
  its handlers run; the result is the final state and all calls made, in order.
\<close>

fun PerformanceTracking_events ::
  "performance_tracking \<Rightarrow> (string \<times> event) list \<Rightarrow> performance_tracking \<times> call list" where
  "PerformanceTracking_events s [] = (s, [])"
| "PerformanceTracking_events s ((u, e) # es) =
     (let (s1, out) = PerformanceTracking_on u e s;
          (s2, outs) = PerformanceTracking_events s1 es
      in (s2, out @ outs))"

text \<open>
  The same on what the constructor left: after the early return (\<open>None\<close>) no handler
  is registered, and no event has an effect.
\<close>

definition PerformanceTracking_run ::
  "performance_tracking option \<Rightarrow> (string \<times> event) list \<Rightarrow> performance_tracking option \<times> call list" where
  "PerformanceTracking_run r es =
     (case r of
        None \<Rightarrow> (None, [])
      | Some s \<Rightarrow> (let (s1, calls) = PerformanceTracking_events s es in (Some s1, calls)))"

text \<open>The events whose handlers end the session.\<close>

fun resets :: "event \<Rightarrow> bool" where
  "resets Loadstart = True"
| "resets Ended = True"
| "resets Dispose = True"
| "resets Beforeunload = True"
| "resets e = False"

section \<open>Notions the properties are stated with\<close>

text \<open>
  A raw pause event that the handler accepts where the suppression flag is unset: the
  player reports neither seeking nor scrubbing.
\<close>

fun starts_timeout :: "event \<Rightarrow> bool" where
  "starts_timeout (Pause seeking scrubbing) = (\<not> isSeeking seeking scrubbing)"
| "starts_timeout e = False"

fun is_TrackingPause :: "tracking_event \<Rightarrow> bool" where
  "is_TrackingPause (TrackingPause d) = True"
| "is_TrackingPause e = False"

text \<open>
  The host's table of scheduled timeouts is in order: no handle occurs twice, and every
  handle in it has been handed out already.
\<close>

definition timeouts_ok :: "pause_tracking \<Rightarrow> bool" where
  "timeouts_ok w \<longleftrightarrow>
     distinct (map fst (timeouts w)) \<and> list_all (\<lambda>p. fst p < next_handle w) (timeouts w)"

text \<open>
  The durations, in seconds, of the pauses completed within a log of triggered events:
  a pause runs from the triggering of its \<open>tracking:pause\<close> to the next
  \<open>tracking:unpause\<close>, and where several \<open>tracking:pause\<close> come before one
  \<open>tracking:unpause\<close> the last of them counts. \<open>opened\<close> is the time of a
  \<open>tracking:pause\<close> before the log that no \<open>tracking:unpause\<close> has answered yet.
\<close>

fun completed :: "int option \<Rightarrow> (int \<times> tracking_event) list \<Rightarrow> rat list" where
  "completed opened [] = []"
| "completed opened ((t, TrackingPause d) # l) = completed (Some t) l"
| "completed opened ((t, TrackingUnpause d) # l) =
     (case opened of
        None \<Rightarrow> completed None l
      | Some t0 \<Rightarrow> (of_int (t - t0) / 1000) # completed None l)"
| "completed opened (x # l) = completed opened l"

text \<open>The state of a session that has just begun with identifier \<open>u\<close>.\<close>

definition session_reset :: "string \<Rightarrow> performance_tracking \<Rightarrow> bool" where
  "session_reset u s \<longleftrightarrow>
     session s = u \<and> seekCount s = 0 \<and> pauseTime s = 0 \<and> pauseCount s = 0 \<and>
     bufferCount s = 0 \<and> bufferDuration s = 0 \<and> timestamps s = [] \<and>
     totalDuration s = Finite 0 \<and> watchedDuration s = 0 \<and> initialLoadTime s = 0"

text \<open>The rounded second-marks of the \<open>timeupdate\<close> events of a run, in order.\<close>

fun second_marks :: "(string \<times> event) list \<Rightarrow> int list" where
  "second_marks [] = []"
| "second_marks ((u, Timeupdate t) # es) = toFixed0 t # second_marks es"
| "second_marks (x # es) = second_marks es"

section \<open>Properties of PauseTracking\<close>

subsection \<open>Single steps and runs\<close>

lemma PauseTracking_on_Pause_accepted:
  assumes "\<not> isSeeking seeking scrubbing" and "\<not> locked w"
  shows "PauseTracking_on now (Pause seeking scrubbing) w =
           (w\<lparr>timer := Some (next_handle w),
              timeouts := timeouts w @ [(next_handle w, now + 300)],
              next_handle := Suc (next_handle w)\<rparr>, [])"
  using assms by (simp add: setTimeout_def)

lemma map_of_fresh_append:
  assumes "\<forall>p\<in>set xs. fst p \<noteq> h"
  shows "map_of (xs @ [(h, d)]) h = Some d"
  using assms by (induction xs) auto

lemma PauseTracking_run_Cons:
  "fst (PauseTracking_run w ((now, e) # es)) =
     fst (PauseTracking_run (fst (PauseTracking_on now e w)) es)"
  "snd (PauseTracking_run w ((now, e) # es)) =
     map (Pair now) (snd (PauseTracking_on now e w)) @
     snd (PauseTracking_run (fst (PauseTracking_on now e w)) es)"
  by (simp_all split: prod.splits)

lemma filter_snd_stamped:
  "filter (P \<circ> snd) (map (Pair now) out) = map (Pair now) (filter P out)"
  by (induction out) simp_all

subsection \<open>A raw pause during seeking, scrubbing or suppression\<close>

text \<open>
  C6. A raw pause event that arrives while the player reports seeking or scrubbing, or
  while the suppression flag is set, changes nothing and triggers nothing: the table of
  timeouts is as before (no timeout is started), \<open>pauseCount\<close> is as before, no
  \<open>tracking:pause\<close> is triggered, and every run goes on as if the event had not
  happened, so nothing is counted for it later either.
\<close>

theorem pause_while_seeking_or_locked_ignored:
  assumes "seeking = Some True \<or> scrubbing = Some True \<or> locked w"
  shows "PauseTracking_on now (Pause seeking scrubbing) w = (w, []) \<and>
         timeouts (fst (PauseTracking_on now (Pause seeking scrubbing) w)) = timeouts w \<and>
         pauseCount (fst (PauseTracking_on now (Pause seeking scrubbing) w)) = pauseCount w \<and>
         PauseTracking_run w ((now, Pause seeking scrubbing) # es) = PauseTracking_run w es"
  using assms by (auto simp: isSeeking_def)

theorem pause_while_seeking_or_locked_ignored_witness:
  "PauseTracking_on 5 (Pause (Some True) None) PauseTracking = (PauseTracking, []) \<and>
   PauseTracking_run PauseTracking [(5, Pause (Some True) None), (400, Timeout 1)] =
     (PauseTracking, [])"
  using pause_while_seeking_or_locked_ignored
          [of "Some True" None PauseTracking 5 "[(400, Timeout 1)]"]
  by (simp add: PauseTracking_def)

subsection \<open>A raw pause followed by a raw play within the delay\<close>

text \<open>
  C1, as the code has it. Take a raw pause event at time \<open>t0\<close>, with the player neither
  seeking nor scrubbing and the suppression flag unset, followed by a raw play event at
  \<open>t1\<close> within the 300 ms. Up to and including the play no \<open>tracking:pause\<close> is
  triggered and \<open>pauseCount\<close> is unchanged; the play triggers no \<open>tracking:unpause\<close>
  either unless an earlier confirmed pause was still open. But the play does not clear
  the timeout: it is still scheduled after the play, and when its callback runs, at
  \<open>t2\<close> not before \<open>t0 + 300\<close>, one \<open>tracking:pause\<close> is triggered and
  \<open>pauseCount\<close> goes up by one.
\<close>

theorem pause_then_play_leaves_timeout_pending:
  assumes "\<not> isSeeking seeking scrubbing" and "\<not> locked w"
      and "t0 \<le> t1" and "t1 < t0 + 300" and "t0 + 300 \<le> t2"
      and "\<forall>p\<in>set (timeouts w). fst p < next_handle w"
  shows "snd (PauseTracking_on t0 (Pause seeking scrubbing) w) = [] \<and>
         pauseCount (fst (PauseTracking_run w [(t0, Pause seeking scrubbing), (t1, Play)]))
           = pauseCount w \<and>
         filter (is_TrackingPause \<circ> snd)
           (snd (PauseTracking_run w [(t0, Pause seeking scrubbing), (t1, Play)])) = [] \<and>
         (initPauseTime w = None \<longrightarrow>
            snd (PauseTracking_run w [(t0, Pause seeking scrubbing), (t1, Play)]) = []) \<and>
         timeouts (fst (PauseTracking_run w [(t0, Pause seeking scrubbing), (t1, Play)])) =
            timeouts w @ [(next_handle w, t0 + 300)] \<and>
         snd (PauseTracking_run w
                [(t0, Pause seeking scrubbing), (t1, Play), (t2, Timeout (next_handle w))]) =
            snd (PauseTracking_run w [(t0, Pause seeking scrubbing), (t1, Play)]) @
            [(t2, TrackingPause
                   \<lparr>pauseTime = pauseTime (fst (PauseTracking_run w
                                   [(t0, Pause seeking scrubbing), (t1, Play)])),
                    pauseCount = pauseCount w + 1\<rparr>)] \<and>
         pauseCount (fst (PauseTracking_run w
                [(t0, Pause seeking scrubbing), (t1, Play), (t2, Timeout (next_handle w))]))
           = pauseCount w + 1"
proof -
  have fresh: "map_of (timeouts w @ [(next_handle w, t0 + 300)]) (next_handle w) = Some (t0 + 300)"
    using assms(6) by (intro map_of_fresh_append) auto
  show ?thesis
    using assms(1,2,5) fresh
    by (cases "initPauseTime w")
       (simp_all add: PauseTracking_on_Pause_accepted pause_timeout_def clearTimeout_def
          del: PauseTracking_on.simps(5))
qed

theorem pause_then_play_leaves_timeout_pending_witness:
  "\<not> isSeeking (Some False) None \<and> \<not> locked PauseTracking \<and> timeouts PauseTracking = [] \<and>
   PauseTracking_run PauseTracking [(0, Pause (Some False) None), (100, Play)] =
     (\<lparr>pauseTime = 0, pauseCount = 0, initPauseTime = None, timer = Some 1, locked = False,
       timeouts = [(1, 300)], next_handle = 2\<rparr>, []) \<and>
   snd (PauseTracking_run PauseTracking
          [(0, Pause (Some False) None), (100, Play), (300, Timeout 1)]) =
     [(300, TrackingPause \<lparr>pauseTime = 0, pauseCount = 1\<rparr>)]"
  using pause_then_play_leaves_timeout_pending [of "Some False" None PauseTracking 0 100 300]
  by (simp add: PauseTracking_def isSeeking_def setTimeout_def)

text \<open>
  The run that contradicts C1 as the specification words it: a pause at 0, a play at
  100 and the timeout's callback at 300. The host can produce it, and it ends with one
  \<open>tracking:pause\<close> triggered and \<open>pauseCount = 1\<close>.
\<close>

theorem pause_then_play_still_counted:
  "admissible 0 PauseTracking
     [(0, Pause (Some False) (Some False)), (100, Play), (300, Timeout 1)] \<and>
   PauseTracking_run PauseTracking
     [(0, Pause (Some False) (Some False)), (100, Play), (300, Timeout 1)] =
     (\<lparr>pauseTime = 0, pauseCount = 1, initPauseTime = Some 300, timer = Some 1,
       locked = False, timeouts = [], next_handle = 2\<rparr>,
      [(300, TrackingPause \<lparr>pauseTime = 0, pauseCount = 1\<rparr>)])"
  by (simp add: PauseTracking_def setTimeout_def clearTimeout_def pause_timeout_def
        isSeeking_def)

subsection \<open>How many timeouts can be pending\<close>

lemma timeouts_ok_reset:
  assumes "timeouts_ok w"
  shows "timeouts_ok (PauseTracking_reset w) \<and> \<not> locked (PauseTracking_reset w) \<and>
         length (timeouts (PauseTracking_reset w)) \<le> length (timeouts w)"
  using assms
  by (auto simp: timeouts_ok_def PauseTracking_reset_def clearTimeout_def distinct_map_filter
        list_all_iff split: option.splits)

lemma timeout_removed_shorter:
  assumes "map_of xs h = Some due"
  shows "Suc (length (filter (\<lambda>p. fst p \<noteq> h) xs)) \<le> length xs"
proof -
  have "(h, due) \<in> set xs" using assms by (rule map_of_SomeD)
  then have "length (filter (\<lambda>p. fst p \<noteq> h) xs) < length xs"
    by (intro length_filter_less[where x = "(h, due)"]) auto
  then show ?thesis by simp
qed

text \<open>
  One handler: the table stays in order, the flag stays unset, and what is triggered as
  \<open>tracking:pause\<close> plus what is pending grows by at most the one timeout an accepted
  raw pause starts.
\<close>

lemma PauseTracking_on_count:
  assumes "timeouts_ok w" and "\<not> locked w"
  shows "timeouts_ok (fst (PauseTracking_on now e w)) \<and>
         \<not> locked (fst (PauseTracking_on now e w)) \<and>
         length (filter is_TrackingPause (snd (PauseTracking_on now e w))) +
           length (timeouts (fst (PauseTracking_on now e w)))
         \<le> length (timeouts w) + (if starts_timeout e then 1 else 0)"
proof (cases e)
  case Play
  then show ?thesis using assms by (simp add: timeouts_ok_def split: option.splits)
next
  case (Pause seeking scrubbing)
  then show ?thesis using assms
    by (auto simp: setTimeout_def timeouts_ok_def list_all_iff)
next
  case Dispose
  then show ?thesis using assms timeouts_ok_reset[of w] by simp
next
  case Loadstart
  then show ?thesis using assms timeouts_ok_reset[of w] by simp
next
  case Ended
  then show ?thesis using assms timeouts_ok_reset[of w] by simp
next
  case (Timeout h)
  show ?thesis
  proof (cases "map_of (timeouts w) h")
    case None
    then show ?thesis using Timeout assms by simp
  next
    case (Some due)
    then show ?thesis
      using Timeout assms timeout_removed_shorter[OF Some]
      by (auto simp: pause_timeout_def clearTimeout_def timeouts_ok_def distinct_map_filter
            list_all_iff)
  qed
qed (use assms in simp_all)

lemma PauseTracking_run_count:
  assumes "timeouts_ok w" and "\<not> locked w"
  shows "timeouts_ok (fst (PauseTracking_run w es)) \<and>
         \<not> locked (fst (PauseTracking_run w es)) \<and>
         length (filter (is_TrackingPause \<circ> snd) (snd (PauseTracking_run w es))) +
           length (timeouts (fst (PauseTracking_run w es)))
         \<le> length (timeouts w) + length (filter (starts_timeout \<circ> snd) es)"
  using assms
proof (induction es arbitrary: w)
  case Nil
  then show ?case by simp
next
  case (Cons x es)
  obtain now e where x: "x = (now, e)" by (cases x)
  let ?w1 = "fst (PauseTracking_on now e w)"
  have s: "timeouts_ok ?w1 \<and> \<not> locked ?w1 \<and>
           length (filter is_TrackingPause (snd (PauseTracking_on now e w))) + length (timeouts ?w1)
           \<le> length (timeouts w) + (if starts_timeout e then 1 else 0)"
    using PauseTracking_on_count[OF Cons.prems, of now e] .
  then have ih: "timeouts_ok (fst (PauseTracking_run ?w1 es)) \<and>
         \<not> locked (fst (PauseTracking_run ?w1 es)) \<and>
         length (filter (is_TrackingPause \<circ> snd) (snd (PauseTracking_run ?w1 es))) +
           length (timeouts (fst (PauseTracking_run ?w1 es)))
         \<le> length (timeouts ?w1) + length (filter (starts_timeout \<circ> snd) es)"
    using Cons.IH[of ?w1] by blast
  show ?case
    unfolding x PauseTracking_run_Cons filter_append length_append filter_snd_stamped length_map
    using s ih by (cases "starts_timeout e") (simp_all add: comp_def)
qed

text \<open>
  C3, as the code has it. The closure keeps one handle, the latest, but a raw pause that
  is accepted while an earlier timeout is pending starts a further one without clearing
  it, so more than one can be pending. In every state reached from construction the
  pending timeouts have distinct handles, the suppression flag is unset, and the
  \<open>tracking:pause\<close> events triggered so far together with the timeouts still pending
  are no more than the raw pause events accepted so far: each accepted raw pause event
  increments \<open>pauseCount\<close> at most once.
\<close>

theorem one_count_per_accepted_pause:
  "distinct (map fst (timeouts (fst (PauseTracking_run PauseTracking es)))) \<and>
   \<not> locked (fst (PauseTracking_run PauseTracking es)) \<and>
   length (filter (is_TrackingPause \<circ> snd) (snd (PauseTracking_run PauseTracking es))) +
     length (timeouts (fst (PauseTracking_run PauseTracking es)))
   \<le> length (filter (starts_timeout \<circ> snd) es)"
proof -
  have "timeouts_ok PauseTracking" and "\<not> locked PauseTracking"
    by (simp_all add: timeouts_ok_def PauseTracking_def)
  from PauseTracking_run_count[OF this, of es] show ?thesis
    by (simp add: timeouts_ok_def PauseTracking_def)
qed

theorem one_count_per_accepted_pause_witness:
  "length (filter (is_TrackingPause \<circ> snd)
     (snd (PauseTracking_run PauseTracking
        [(0, Pause None None), (100, Pause (Some True) None), (300, Timeout 1)]))) +
   length (timeouts (fst (PauseTracking_run PauseTracking
        [(0, Pause None None), (100, Pause (Some True) None), (300, Timeout 1)])))
   \<le> 1"
  using one_count_per_accepted_pause
          [of "[(0, Pause None None), (100, Pause (Some True) None), (300, Timeout 1)]"]
  by (simp add: isSeeking_def)

text \<open>
  The run that contradicts C3 as the specification words it: two raw pause events, at 0
  and at 100, with no play or reset between them, leave two timeouts pending; the host
  runs both callbacks, and \<open>pauseCount\<close> ends at 2.
\<close>

theorem two_pauses_two_timeouts:
  "admissible 0 PauseTracking
     [(0, Pause (Some False) (Some False)), (100, Pause (Some False) (Some False)),
      (300, Timeout 1), (400, Timeout 2)] \<and>
   timeouts (fst (PauseTracking_run PauseTracking
     [(0, Pause (Some False) (Some False)), (100, Pause (Some False) (Some False))])) =
     [(1, 300), (2, 400)] \<and>
   PauseTracking_run PauseTracking
     [(0, Pause (Some False) (Some False)), (100, Pause (Some False) (Some False)),
      (300, Timeout 1), (400, Timeout 2)] =
     (\<lparr>pauseTime = 0, pauseCount = 2, initPauseTime = Some 400, timer = Some 2,
       locked = False, timeouts = [], next_handle = 3\<rparr>,
      [(300, TrackingPause \<lparr>pauseTime = 0, pauseCount = 1\<rparr>),
       (400, TrackingPause \<lparr>pauseTime = 0, pauseCount = 2\<rparr>)])"
  by (simp add: PauseTracking_def setTimeout_def clearTimeout_def pause_timeout_def
        isSeeking_def)

subsection \<open>What the payload of a pause event carries\<close>

text \<open>
  Within a session a handler either triggers nothing and leaves \<open>pauseTime\<close> and
  \<open>initPauseTime\<close> alone, or it is the play handler closing the open pause, or it is a
  timeout's callback opening one.
\<close>

lemma PauseTracking_on_session_cases:
  assumes "e \<notin> {Dispose, Loadstart, Ended}"
  shows "(snd (PauseTracking_on now e w) = [] \<and>
            pauseTime (fst (PauseTracking_on now e w)) = pauseTime w \<and>
            initPauseTime (fst (PauseTracking_on now e w)) = initPauseTime w) \<or>
         (\<exists>t0 d. e = Play \<and> initPauseTime w = Some t0 \<and>
            snd (PauseTracking_on now e w) = [TrackingUnpause d] \<and>
            pauseTime (fst (PauseTracking_on now e w)) = pauseTime w + of_int (now - t0) / 1000 \<and>
            initPauseTime (fst (PauseTracking_on now e w)) = None) \<or>
         (\<exists>h. e = Timeout h \<and>
            snd (PauseTracking_on now e w) =
              [TrackingPause \<lparr>pauseTime = pauseTime w, pauseCount = pauseCount w + 1\<rparr>] \<and>
            pauseTime (fst (PauseTracking_on now e w)) = pauseTime w \<and>
            initPauseTime (fst (PauseTracking_on now e w)) = Some now)"
  using assms
  by (cases e)
     (auto simp: setTimeout_def pause_timeout_def clearTimeout_def split: option.splits)

lemma tracking_pause_payload:
  assumes "\<forall>x\<in>set es. snd x \<notin> {Dispose, Loadstart, Ended}"
      and "snd (PauseTracking_run w es) = pre @ (t, TrackingPause d) # post"
  shows "pauseTime d = pauseTime w + sum_list (completed (initPauseTime w) pre)"
  using assms
proof (induction es arbitrary: w pre)
  case Nil
  then show ?case by simp
next
  case (Cons x es)
  obtain now e where x: "x = (now, e)" by (cases x)
  let ?w1 = "fst (PauseTracking_on now e w)"
  let ?out = "snd (PauseTracking_on now e w)"
  let ?rest = "snd (PauseTracking_run ?w1 es)"
  have e: "e \<notin> {Dispose, Loadstart, Ended}"
    and es: "\<forall>x\<in>set es. snd x \<notin> {Dispose, Loadstart, Ended}"
    using Cons.prems(1) x by auto
  have log: "map (Pair now) ?out @ ?rest = pre @ (t, TrackingPause d) # post"
    using Cons.prems(2) unfolding x PauseTracking_run_Cons .
  from PauseTracking_on_session_cases[OF e, of now w]
  consider
    (quiet) "?out = []" "pauseTime ?w1 = pauseTime w" "initPauseTime ?w1 = initPauseTime w"
  | (unpause) t0 d' where "initPauseTime w = Some t0" "?out = [TrackingUnpause d']"
      "pauseTime ?w1 = pauseTime w + of_int (now - t0) / 1000" "initPauseTime ?w1 = None"
  | (pause) "?out = [TrackingPause \<lparr>pauseTime = pauseTime w, pauseCount = pauseCount w + 1\<rparr>]"
      "pauseTime ?w1 = pauseTime w" "initPauseTime ?w1 = Some now"
    by blast
  then show ?case
  proof cases
    case quiet
    then have "?rest = pre @ (t, TrackingPause d) # post" using log by simp
    from Cons.IH[OF es this] quiet show ?thesis by simp
  next
    case unpause
    then have "(now, TrackingUnpause d') # ?rest = pre @ (t, TrackingPause d) # post"
      using log by simp
    then obtain pre' where pre: "pre = (now, TrackingUnpause d') # pre'"
      and rest: "?rest = pre' @ (t, TrackingPause d) # post"
      by (auto simp: Cons_eq_append_conv)
    from Cons.IH[OF es rest] unpause pre show ?thesis by simp
  next
    case pause
    then have "(now, TrackingPause \<lparr>pauseTime = pauseTime w, pauseCount = pauseCount w + 1\<rparr>) # ?rest
                 = pre @ (t, TrackingPause d) # post"
      using log by simp
    then consider "pre = []" "d = \<lparr>pauseTime = pauseTime w, pauseCount = pauseCount w + 1\<rparr>"
      | pre' where
          "pre = (now, TrackingPause \<lparr>pauseTime = pauseTime w, pauseCount = pauseCount w + 1\<rparr>) # pre'"
          "?rest = pre' @ (t, TrackingPause d) # post"
      by (auto simp: Cons_eq_append_conv)
    then show ?thesis
    proof cases
      case 1
      then show ?thesis by simp
    next
      case 2
      from Cons.IH[OF es 2(2)] pause 2(1) show ?thesis by simp
    qed
  qed
qed

text \<open>
  C10. Take a run within one session (no dispose, loadstart or ended) and any
  \<open>tracking:pause\<close> it triggers. The payload's \<open>pauseTime\<close> is what the session had
  at the start of the run plus the durations of the pauses completed by a play before
  this triggering; the pause being reported is not among them. With it, a handler
  changes \<open>pauseTime\<close> only when it is the play handler ending a confirmed pause, or a
  reset; a timeout's callback leaves it as it was.
\<close>

theorem tracking_pause_payload_excludes_reported_pause:
  assumes "\<forall>x\<in>set es. snd x \<notin> {Dispose, Loadstart, Ended}"
      and "snd (PauseTracking_run w es) = pre @ (t, TrackingPause d) # post"
  shows "pauseTime d = pauseTime w + sum_list (completed (initPauseTime w) pre) \<and>
         (pauseTime (fst (PauseTracking_on now e w)) \<noteq> pauseTime w \<longrightarrow>
            (e = Play \<and> initPauseTime w \<noteq> None) \<or> e \<in> {Dispose, Loadstart, Ended}) \<and>
         pauseTime (fst (PauseTracking_on now (Timeout h) w)) = pauseTime w"
proof -
  have "pauseTime (fst (PauseTracking_on now (Timeout h) w)) = pauseTime w"
    using PauseTracking_on_session_cases[of "Timeout h" now w] by auto
  moreover have "pauseTime (fst (PauseTracking_on now e w)) \<noteq> pauseTime w \<longrightarrow>
            (e = Play \<and> initPauseTime w \<noteq> None) \<or> e \<in> {Dispose, Loadstart, Ended}"
    using PauseTracking_on_session_cases[of e now w] by auto
  ultimately show ?thesis
    using tracking_pause_payload[OF assms] by blast
qed

theorem tracking_pause_payload_excludes_reported_pause_witness:
  "snd (PauseTracking_run PauseTracking
          [(0, Pause None None), (300, Timeout 1), (1300, Play), (2000, Pause None None),
           (2300, Timeout 2)]) =
     [(300, TrackingPause \<lparr>pauseTime = 0, pauseCount = 1\<rparr>),
      (1300, TrackingUnpause \<lparr>pauseTime = 1, pauseCount = 1\<rparr>)] @
     (2300, TrackingPause \<lparr>pauseTime = 1, pauseCount = 2\<rparr>) # [] \<and>
   pauseTime \<lparr>pauseTime = 1, pauseCount = 2\<rparr> =
     pauseTime PauseTracking +
     sum_list (completed (initPauseTime PauseTracking)
       [(300, TrackingPause \<lparr>pauseTime = 0, pauseCount = 1\<rparr>),
        (1300, TrackingUnpause \<lparr>pauseTime = 1, pauseCount = 1\<rparr>)])"
proof -
  have run: "snd (PauseTracking_run PauseTracking
          [(0, Pause None None), (300, Timeout 1), (1300, Play), (2000, Pause None None),
           (2300, Timeout 2)]) =
     [(300, TrackingPause \<lparr>pauseTime = 0, pauseCount = 1\<rparr>),
      (1300, TrackingUnpause \<lparr>pauseTime = 1, pauseCount = 1\<rparr>)] @
     (2300, TrackingPause \<lparr>pauseTime = 1, pauseCount = 2\<rparr>) # []"
    by (simp add: PauseTracking_def setTimeout_def clearTimeout_def pause_timeout_def
          isSeeking_def)
  have session: "\<forall>x\<in>set [(0, Pause None None), (300, Timeout 1), (1300, Play),
      (2000::int, Pause None None), (2300, Timeout 2)]. snd x \<notin> {Dispose, Loadstart, Ended}"
    by simp
  from tracking_pause_payload_excludes_reported_pause[OF session run, of 0 Play 0] run
  show ?thesis by blast
qed

section \<open>Properties of PerformanceTracking\<close>

subsection \<open>Single steps and runs\<close>

text \<open>\<open>snapshot.truncate s\<close> is the state \<open>s\<close> cut down to the nine fields of \<open>data\<close>.\<close>

lemma snapshot_truncate_fields:
  "snapshot.truncate s =
     \<lparr>pauseTime = pauseTime s, pauseCount = pauseCount s, session = session s,
      seekCount = seekCount s, bufferCount = bufferCount s, totalDuration = totalDuration s,
      watchedDuration = watchedDuration s, bufferDuration = bufferDuration s,
      initialLoadTime = initialLoadTime s\<rparr>"
  by (simp add: snapshot.truncate_def pause_data.truncate_def)

lemma PerformanceTracking_events_Cons:
  "fst (PerformanceTracking_events s ((u, e) # es)) =
     fst (PerformanceTracking_events (fst (PerformanceTracking_on u e s)) es)"
  "snd (PerformanceTracking_events s ((u, e) # es)) =
     snd (PerformanceTracking_on u e s) @
     snd (PerformanceTracking_events (fst (PerformanceTracking_on u e s)) es)"
  by (simp_all split: prod.splits)

text \<open>No handler assigns to \<open>player\<close> or replaces the callback.\<close>

lemma PerformanceTracking_on_constants:
  "player (fst (PerformanceTracking_on u e s)) = player s \<and>
   performance (fst (PerformanceTracking_on u e s)) = performance s"
  by (cases "(u, e, s)" rule: PerformanceTracking_on.cases)
     (auto simp: triggerAndReset_def PerformanceTracking_reset_def Let_def)

lemma PerformanceTracking_on_calls:
  assumes "c \<in> set (snd (PerformanceTracking_on u e s))"
  shows "callee c = performance s \<and> this_arg c = player s \<and>
         data c = snapshot.truncate (if resets e then s else fst (PerformanceTracking_on u e s))"
  using assms
  by (cases "(u, e, s)" rule: PerformanceTracking_on.cases)
     (auto simp: trigger_def triggerAndReset_def snapshot_truncate_fields Let_def
        split: if_splits)

lemma PerformanceTracking_events_calls:
  assumes "c \<in> set (snd (PerformanceTracking_events s es))"
  shows "callee c = performance s \<and> this_arg c = player s"
  using assms
proof (induction es arbitrary: s)
  case Nil
  then show ?case by simp
next
  case (Cons x es)
  obtain u e where x: "x = (u, e)" by (cases x)
  from Cons.prems consider
      "c \<in> set (snd (PerformanceTracking_on u e s))"
    | "c \<in> set (snd (PerformanceTracking_events (fst (PerformanceTracking_on u e s)) es))"
    unfolding x PerformanceTracking_events_Cons by auto
  then show ?case
  proof cases
    case 1
    then show ?thesis using PerformanceTracking_on_calls by blast
  next
    case 2
    from Cons.IH[OF 2] show ?thesis
      using PerformanceTracking_on_constants[of u e s] by simp
  qed
qed

text \<open>
  In every state the handlers reach from construction, \<open>timestamps\<close> holds no mark
  twice and \<open>watchedDuration\<close> is its length.
\<close>

lemma PerformanceTracking_constructed:
  assumes "PerformanceTracking this cfg b u = Inr (Some s)"
  shows "timestamps s = [] \<and> watchedDuration s = 0 \<and> player s = this \<and>
         typeof (performance s) = ''function''"
  using assms
  by (auto simp: PerformanceTracking_def split: config.splits if_splits)

lemma PerformanceTracking_on_watched:
  assumes "watchedDuration s = length (timestamps s)" and "distinct (timestamps s)"
  shows "watchedDuration (fst (PerformanceTracking_on u e s)) =
           length (timestamps (fst (PerformanceTracking_on u e s))) \<and>
         distinct (timestamps (fst (PerformanceTracking_on u e s)))"
  using assms
  by (cases "(u, e, s)" rule: PerformanceTracking_on.cases)
     (auto simp: triggerAndReset_def PerformanceTracking_reset_def Let_def
        simp del: js_rem.simps)

lemma PerformanceTracking_events_watched:
  assumes "watchedDuration s = length (timestamps s)" and "distinct (timestamps s)"
  shows "watchedDuration (fst (PerformanceTracking_events s es)) =
           length (timestamps (fst (PerformanceTracking_events s es))) \<and>
         distinct (timestamps (fst (PerformanceTracking_events s es)))"
  using assms
proof (induction es arbitrary: s)
  case Nil
  then show ?case by simp
next
  case (Cons x es)
  obtain u e where x: "x = (u, e)" by (cases x)
  from PerformanceTracking_on_watched[OF Cons.prems, of u e] Cons.IH
  show ?case unfolding x PerformanceTracking_events_Cons by blast
qed

subsection \<open>The end of a session\<close>

text \<open>
  C2. On \<open>ended\<close> and on \<open>dispose\<close>, whatever the state, and on \<open>loadstart\<close> when
  \<open>totalDuration > 0\<close>, the handler makes exactly one call, with the session's values
  as they are at that moment, and leaves the state of a session just begun, under the
  new identifier. On \<open>loadstart\<close> when \<open>totalDuration > 0\<close> does not hold (0 is such
  a value) it makes no call and leaves the same reset state. After \<open>dispose\<close> the
  window's listener is gone, so a later \<open>beforeunload\<close> delivers nothing again.
\<close>

theorem final_snapshot_once_then_reset:
  "(e = Ended \<or> e = Dispose \<or> (e = Loadstart \<and> gt0 (totalDuration s)) \<longrightarrow>
      map data (snd (PerformanceTracking_on u e s)) = [snapshot.truncate s] \<and>
      session_reset u (fst (PerformanceTracking_on u e s))) \<and>
   (e = Loadstart \<and> (totalDuration s = Finite 0 \<or> \<not> gt0 (totalDuration s)) \<longrightarrow>
      snd (PerformanceTracking_on u e s) = [] \<and>
      session_reset u (fst (PerformanceTracking_on u e s))) \<and>
   snd (PerformanceTracking_on u' Beforeunload (fst (PerformanceTracking_on u Dispose s))) = []"
  by (auto simp: triggerAndReset_def trigger_def PerformanceTracking_reset_def
        session_reset_def snapshot_truncate_fields)

theorem final_snapshot_once_then_reset_witness:
  "PerformanceTracking_on ''s1'' Ended
     \<lparr>pauseTime = 3 / 2, pauseCount = 1, session = ''s0'', seekCount = 2, bufferCount = 0,
      totalDuration = Finite 120, watchedDuration = 2, bufferDuration = 0,
      initialLoadTime = 1 / 4, timestamps = [0, 1], player = 7, performance = JFunction 0,
      triggerOnPause = True, triggerInterval = Finite 10, beforeunload_listener = True\<rparr> =
   (\<lparr>pauseTime = 0, pauseCount = 0, session = ''s1'', seekCount = 0, bufferCount = 0,
      totalDuration = Finite 0, watchedDuration = 0, bufferDuration = 0,
      initialLoadTime = 0, timestamps = [], player = 7, performance = JFunction 0,
      triggerOnPause = True, triggerInterval = Finite 10, beforeunload_listener = True\<rparr>,
    [\<lparr>callee = JFunction 0, this_arg = 7,
      data = \<lparr>pauseTime = 3 / 2, pauseCount = 1, session = ''s0'', seekCount = 2,
              bufferCount = 0, totalDuration = Finite 120, watchedDuration = 2,
              bufferDuration = 0, initialLoadTime = 1 / 4\<rparr>\<rparr>])"
  using final_snapshot_once_then_reset [of Ended
     "\<lparr>pauseTime = 3 / 2, pauseCount = 1, session = ''s0'', seekCount = 2, bufferCount = 0,
      totalDuration = Finite 120, watchedDuration = 2, bufferDuration = 0,
      initialLoadTime = 1 / 4, timestamps = [0, 1], player = 7, performance = JFunction 0,
      triggerOnPause = True, triggerInterval = Finite 10, beforeunload_listener = True\<rparr>"
     "''s1''"]
  by (simp add: triggerAndReset_def trigger_def PerformanceTracking_reset_def)

subsection \<open>What a delivery passes\<close>

text \<open>
  C7. Every call a handler makes is made within that handler, on the callback of the
  configuration, with the player the constructor was called on as \<open>this\<close>, and passes
  an object of exactly the nine fields of \<open>snapshot\<close> (the identifier under the name
  \<open>session\<close>), each with the session's value at the moment of the call: the values
  before the reset where the handler resets, the values the handler leaves otherwise.
  Callback and player stay the same through every run.
\<close>

theorem delivery_passes_current_snapshot:
  "(c \<in> set (snd (PerformanceTracking_on u e s)) \<longrightarrow>
      callee c = performance s \<and> this_arg c = player s \<and>
      data c = snapshot.truncate (if resets e then s else fst (PerformanceTracking_on u e s))) \<and>
   (c \<in> set (snd (PerformanceTracking_events s es)) \<longrightarrow>
      callee c = performance s \<and> this_arg c = player s)"
  using PerformanceTracking_on_calls PerformanceTracking_events_calls by blast

theorem delivery_passes_current_snapshot_witness:
  "\<lparr>callee = JFunction 0, this_arg = 7,
     data = \<lparr>pauseTime = 0, pauseCount = 1, session = ''s0'', seekCount = 0,
             bufferCount = 0, totalDuration = Finite 0, watchedDuration = 0,
             bufferDuration = 0, initialLoadTime = 0\<rparr>\<rparr>
   \<in> set (snd (PerformanceTracking_on ''s1''
         (Tracking (TrackingPause \<lparr>pauseTime = 0, pauseCount = 1\<rparr>))
         \<lparr>pauseTime = 0, pauseCount = 0, session = ''s0'', seekCount = 0, bufferCount = 0,
          totalDuration = Finite 0, watchedDuration = 0, bufferDuration = 0,
          initialLoadTime = 0, timestamps = [], player = 7, performance = JFunction 0,
          triggerOnPause = True, triggerInterval = Finite 10,
          beforeunload_listener = True\<rparr>)) \<and>
   data \<lparr>callee = JFunction 0, this_arg = 7,
     data = \<lparr>pauseTime = 0, pauseCount = 1, session = ''s0'', seekCount = 0,
             bufferCount = 0, totalDuration = Finite 0, watchedDuration = 0,
             bufferDuration = 0, initialLoadTime = 0\<rparr>\<rparr> =
   snapshot.truncate
     \<lparr>pauseTime = 0, pauseCount = 1, session = ''s0'', seekCount = 0, bufferCount = 0,
      totalDuration = Finite 0, watchedDuration = 0, bufferDuration = 0,
      initialLoadTime = 0, timestamps = [], player = 7, performance = JFunction 0,
      triggerOnPause = True, triggerInterval = Finite 10, beforeunload_listener = True\<rparr>"
  using delivery_passes_current_snapshot [of
     "\<lparr>callee = JFunction 0, this_arg = 7,
       data = \<lparr>pauseTime = 0, pauseCount = 1, session = ''s0'', seekCount = 0,
               bufferCount = 0, totalDuration = Finite 0, watchedDuration = 0,
               bufferDuration = 0, initialLoadTime = 0\<rparr>\<rparr>"
     "''s1''" "Tracking (TrackingPause \<lparr>pauseTime = 0, pauseCount = 1\<rparr>)"
     "\<lparr>pauseTime = 0, pauseCount = 0, session = ''s0'', seekCount = 0, bufferCount = 0,
      totalDuration = Finite 0, watchedDuration = 0, bufferDuration = 0,
      initialLoadTime = 0, timestamps = [], player = 7, performance = JFunction 0,
      triggerOnPause = True, triggerInterval = Finite 10, beforeunload_listener = True\<rparr>"
     "[]"]
  by (simp add: trigger_def snapshot_truncate_fields)

subsection \<open>Rounding and remainders on the values that occur\<close>

lemma floor_rat_numeral_divide:
  "\<lfloor>(numeral a / numeral b :: rat)\<rfloor> = numeral a div numeral b"
  using floor_divide_of_int_eq[of "numeral a" "numeral b", where ?'a = rat] by simp

lemma js_rem_of_nat:
  assumes "0 < d"
  shows "js_rem (of_nat n) (Finite (of_nat d)) = Finite (of_nat (n mod d))"
proof -
  have nonneg: "\<not> (of_nat n / of_nat d :: rat) < 0"
    by (simp add: not_less)
  have "js_truncate (of_nat n / of_nat d) = int (n div d)"
    using nonneg by (simp add: js_truncate_def floor_divide_of_nat_eq)
  moreover have "(of_nat n :: rat) - of_nat d * of_nat (n div d) = of_nat (n mod d)"
  proof -
    have "n = d * (n div d) + n mod d" by simp
    then have "(of_nat n :: rat) = of_nat (d * (n div d) + n mod d)" by simp
    then show ?thesis by (simp only: of_nat_add of_nat_mult)
  qed
  ultimately show ?thesis using assms by simp
qed

lemma js_rem_10: "js_rem (of_nat n) (Finite 10) = Finite 0 \<longleftrightarrow> n mod 10 = 0"
  using js_rem_of_nat[of 10 n] by simp

subsection \<open>The flush every tenth watched second\<close>

lemma PerformanceTracking_on_Timeupdate_new:
  assumes "toFixed0 t \<notin> set (timestamps s)"
  shows "PerformanceTracking_on u (Timeupdate t) s =
     (s\<lparr>timestamps := timestamps s @ [toFixed0 t],
        watchedDuration := Suc (length (timestamps s))\<rparr>,
      if js_rem (of_nat (Suc (length (timestamps s)))) (triggerInterval s) = Finite 0
      then trigger (s\<lparr>timestamps := timestamps s @ [toFixed0 t],
                      watchedDuration := Suc (length (timestamps s))\<rparr>)
      else [])"
  using assms by (simp add: Let_def del: js_rem.simps of_nat_Suc)

text \<open>
  C4. With \<open>triggerInterval = 10\<close>, a \<open>timeupdate\<close> whose rounded second is new
  raises \<open>watchedDuration\<close> by one and calls the callback exactly when the new
  \<open>watchedDuration\<close> is a multiple of 10: once on the step from 9 to 10, and not when
  the new value is one of 1 to 9. (\<open>watchedDuration\<close> is the length of \<open>timestamps\<close>
  in every state the handlers reach.)
\<close>

theorem interval_flush_at_multiples_of_ten:
  assumes "triggerInterval s = Finite 10" and "toFixed0 t \<notin> set (timestamps s)"
      and "watchedDuration s = length (timestamps s)"
  shows "watchedDuration (fst (PerformanceTracking_on u (Timeupdate t) s)) = watchedDuration s + 1 \<and>
         snd (PerformanceTracking_on u (Timeupdate t) s) =
           (if watchedDuration (fst (PerformanceTracking_on u (Timeupdate t) s)) mod 10 = 0
            then trigger (fst (PerformanceTracking_on u (Timeupdate t) s)) else []) \<and>
         (watchedDuration s = 9 \<longrightarrow>
            watchedDuration (fst (PerformanceTracking_on u (Timeupdate t) s)) = 10 \<and>
            length (snd (PerformanceTracking_on u (Timeupdate t) s)) = 1) \<and>
         (1 \<le> watchedDuration (fst (PerformanceTracking_on u (Timeupdate t) s)) \<and>
          watchedDuration (fst (PerformanceTracking_on u (Timeupdate t) s)) \<le> 9 \<longrightarrow>
            snd (PerformanceTracking_on u (Timeupdate t) s) = [])"
proof -
  have ten: "js_rem 10 (Finite 10) = Finite 0"
    using js_rem_10[of 10] by simp
  show ?thesis
    using assms
    by (auto simp: PerformanceTracking_on_Timeupdate_new js_rem_10 ten trigger_def
          simp del: PerformanceTracking_on.simps js_rem.simps of_nat_Suc)
qed

theorem interval_flush_at_multiples_of_ten_witness:
  "toFixed0 (37 / 4) = 9 \<and>
   watchedDuration (fst (PerformanceTracking_on ''s1'' (Timeupdate (37 / 4))
     \<lparr>pauseTime = 0, pauseCount = 0, session = ''s0'', seekCount = 0, bufferCount = 0,
      totalDuration = Finite 120, watchedDuration = 9, bufferDuration = 0,
      initialLoadTime = 0, timestamps = [0, 1, 2, 3, 4, 5, 6, 7, 8], player = 7,
      performance = JFunction 0, triggerOnPause = True, triggerInterval = Finite 10,
      beforeunload_listener = True\<rparr>)) = 10 \<and>
   length (snd (PerformanceTracking_on ''s1'' (Timeupdate (37 / 4))
     \<lparr>pauseTime = 0, pauseCount = 0, session = ''s0'', seekCount = 0, bufferCount = 0,
      totalDuration = Finite 120, watchedDuration = 9, bufferDuration = 0,
      initialLoadTime = 0, timestamps = [0, 1, 2, 3, 4, 5, 6, 7, 8], player = 7,
      performance = JFunction 0, triggerOnPause = True, triggerInterval = Finite 10,
      beforeunload_listener = True\<rparr>)) = 1"
  using interval_flush_at_multiples_of_ten [of
     "\<lparr>pauseTime = 0, pauseCount = 0, session = ''s0'', seekCount = 0, bufferCount = 0,
      totalDuration = Finite 120, watchedDuration = 9, bufferDuration = 0,
      initialLoadTime = 0, timestamps = [0, 1, 2, 3, 4, 5, 6, 7, 8], player = 7,
      performance = JFunction 0, triggerOnPause = True, triggerInterval = Finite 10,
      beforeunload_listener = True\<rparr>" "37 / 4" "''s1''"]
  by (simp add: toFixed0_def floor_rat_numeral_divide trigger_def
        del: PerformanceTracking_on.simps)

subsection \<open>Watched seconds are counted once\<close>

lemma second_marks_append: "second_marks (es @ es') = second_marks es @ second_marks es'"
  by (induction es rule: second_marks.induct) simp_all

lemma PerformanceTracking_on_timestamps:
  assumes "\<not> resets e"
  shows "timestamps (fst (PerformanceTracking_on u e s)) =
           (case e of
              Timeupdate t \<Rightarrow>
                if toFixed0 t \<in> set (timestamps s) then timestamps s
                else timestamps s @ [toFixed0 t]
            | _ \<Rightarrow> timestamps s) \<and>
         watchedDuration (fst (PerformanceTracking_on u e s)) =
           (case e of
              Timeupdate t \<Rightarrow>
                if toFixed0 t \<in> set (timestamps s) then watchedDuration s
                else Suc (length (timestamps s))
            | _ \<Rightarrow> watchedDuration s)"
  using assms
  by (cases "(u, e, s)" rule: PerformanceTracking_on.cases)
     (simp_all add: Let_def del: js_rem.simps)

text \<open>
  Within a session \<open>timestamps\<close> holds the marks seen, each once, and
  \<open>watchedDuration\<close> is its length.
\<close>

lemma watched_marks:
  assumes "\<forall>x\<in>set es. \<not> resets (snd x)"
      and "watchedDuration s = length (timestamps s)" and "distinct (timestamps s)"
  shows "set (timestamps (fst (PerformanceTracking_events s es))) =
           set (timestamps s) \<union> set (second_marks es) \<and>
         distinct (timestamps (fst (PerformanceTracking_events s es))) \<and>
         watchedDuration (fst (PerformanceTracking_events s es)) =
           length (timestamps (fst (PerformanceTracking_events s es)))"
  using assms
proof (induction es arbitrary: s)
  case Nil
  then show ?case by simp
next
  case (Cons x es)
  obtain u e where x: "x = (u, e)" by (cases x)
  let ?s1 = "fst (PerformanceTracking_on u e s)"
  have e: "\<not> resets e" and es: "\<forall>x\<in>set es. \<not> resets (snd x)"
    using Cons.prems(1) x by auto
  have s1: "watchedDuration ?s1 = length (timestamps ?s1)" "distinct (timestamps ?s1)"
    "set (timestamps ?s1) \<union> set (second_marks es) =
       set (timestamps s) \<union> set (second_marks ((u, e) # es))"
    using PerformanceTracking_on_timestamps[OF e, of u s] Cons.prems(2,3) e
    by (cases e; auto)+
  from Cons.IH[OF es s1(1,2)] s1(3) show ?case
    unfolding x PerformanceTracking_events_Cons by simp
qed

text \<open>
  C5. Start where a session starts (\<open>timestamps\<close> empty and \<open>watchedDuration\<close> 0, as
  the constructor and every reset leave them) and run any events that do not end the
  session. Then \<open>watchedDuration\<close> is the number of distinct rounded second-marks of
  the \<open>timeupdate\<close> events seen. In particular a second \<open>timeupdate\<close> for the same
  rounded second adds nothing to the first, and two of them for a second not seen before
  raise \<open>watchedDuration\<close> by exactly 1.
\<close>

theorem watchedDuration_counts_distinct_marks:
  assumes "timestamps s = []" and "watchedDuration s = 0"
      and "\<forall>x\<in>set es. \<not> resets (snd x)"
  shows "watchedDuration (fst (PerformanceTracking_events s es)) = card (set (second_marks es)) \<and>
         (toFixed0 t1 = toFixed0 t2 \<longrightarrow>
            watchedDuration (fst (PerformanceTracking_events s
              (es @ [(u1, Timeupdate t1), (u2, Timeupdate t2)]))) =
            watchedDuration (fst (PerformanceTracking_events s (es @ [(u1, Timeupdate t1)])))) \<and>
         (toFixed0 t1 = toFixed0 t2 \<and> toFixed0 t1 \<notin> set (second_marks es) \<longrightarrow>
            watchedDuration (fst (PerformanceTracking_events s
              (es @ [(u1, Timeupdate t1), (u2, Timeupdate t2)]))) =
            watchedDuration (fst (PerformanceTracking_events s es)) + 1)"
proof -
  have count: "watchedDuration (fst (PerformanceTracking_events s es')) = card (set (second_marks es'))"
    if "\<forall>x\<in>set es'. \<not> resets (snd x)" for es'
  proof -
    from watched_marks[OF that, of s] assms(1,2)
    have "set (timestamps (fst (PerformanceTracking_events s es'))) = set (second_marks es')"
      and "distinct (timestamps (fst (PerformanceTracking_events s es')))"
      and "watchedDuration (fst (PerformanceTracking_events s es')) =
           length (timestamps (fst (PerformanceTracking_events s es')))"
      by simp_all
    then show ?thesis by (metis distinct_card)
  qed
  have a: "\<forall>x\<in>set (es @ [(u1, Timeupdate t1), (u2, Timeupdate t2)]). \<not> resets (snd x)"
    and b: "\<forall>x\<in>set (es @ [(u1, Timeupdate t1)]). \<not> resets (snd x)"
    using assms(3) by auto
  show ?thesis
    unfolding count[OF a] count[OF b] count[OF assms(3)]
    by (auto simp: second_marks_append insert_absorb)
qed

theorem watchedDuration_counts_distinct_marks_witness:
  "toFixed0 (21 / 10) = toFixed0 (9 / 4) \<and>
   watchedDuration (fst (PerformanceTracking_events
     \<lparr>pauseTime = 0, pauseCount = 0, session = ''s0'', seekCount = 0, bufferCount = 0,
      totalDuration = Finite 0, watchedDuration = 0, bufferDuration = 0,
      initialLoadTime = 0, timestamps = [], player = 7, performance = JFunction 0,
      triggerOnPause = True, triggerInterval = Finite 10, beforeunload_listener = True\<rparr>
     [(''s1'', Timeupdate (11 / 10)), (''s1'', Tracking (TrackingSeek 1))])) = 1 \<and>
   watchedDuration (fst (PerformanceTracking_events
     \<lparr>pauseTime = 0, pauseCount = 0, session = ''s0'', seekCount = 0, bufferCount = 0,
      totalDuration = Finite 0, watchedDuration = 0, bufferDuration = 0,
      initialLoadTime = 0, timestamps = [], player = 7, performance = JFunction 0,
      triggerOnPause = True, triggerInterval = Finite 10, beforeunload_listener = True\<rparr>
     ([(''s1'', Timeupdate (11 / 10)), (''s1'', Tracking (TrackingSeek 1))] @
      [(''s1'', Timeupdate (21 / 10)), (''s1'', Timeupdate (9 / 4))]))) = 1 + 1"
  using watchedDuration_counts_distinct_marks [of
     "\<lparr>pauseTime = 0, pauseCount = 0, session = ''s0'', seekCount = 0, bufferCount = 0,
      totalDuration = Finite 0, watchedDuration = 0, bufferDuration = 0,
      initialLoadTime = 0, timestamps = [], player = 7, performance = JFunction 0,
      triggerOnPause = True, triggerInterval = Finite 10, beforeunload_listener = True\<rparr>"
     "[(''s1'', Timeupdate (11 / 10)), (''s1'', Tracking (TrackingSeek 1))]"
     "21 / 10" "9 / 4" "''s1''" "''s1''"]
  by (simp add: toFixed0_def floor_rat_numeral_divide del: PerformanceTracking_events.simps)

subsection \<open>Construction\<close>

text \<open>
  C8, as the code has it. If \<open>config\<close> is \<open>undefined\<close>, or its \<open>performance\<close> entry
  is not a function, the constructor returns early: nothing is registered, and no run of
  events makes a call. If \<open>performance\<close> is a function and \<open>triggerInterval\<close> is not a
  number, the aggregator is active, with the callback of the configuration and the
  default interval 10.
\<close>

theorem misconfigured_callback_deactivates:
  "(cfg = ConfigUndefined \<or>
      (\<exists>ps. cfg = ConfigObject ps \<and> typeof (property ps ''performance'') \<noteq> ''function'') \<longrightarrow>
      PerformanceTracking this cfg b u = Inr None \<and>
      PerformanceTracking_run None es = (None, [])) \<and>
   (cfg = ConfigObject ps \<and> typeof (property ps ''performance'') = ''function'' \<and>
      typeof (property ps ''triggerInterval'') \<noteq> ''number'' \<longrightarrow>
      (\<exists>s. PerformanceTracking this cfg b u = Inr (Some s) \<and>
           triggerInterval s = Finite 10 \<and> performance s = property ps ''performance'' \<and>
           player s = this))"
  by (auto simp: PerformanceTracking_def PerformanceTracking_run_def split: js_value.splits)

theorem misconfigured_callback_deactivates_witness:
  "typeof (property [(''performance'', JString ''f'')] ''performance'') = ''string'' \<and>
   PerformanceTracking 7 (ConfigObject [(''performance'', JString ''f'')]) True ''s0'' = Inr None \<and>
   PerformanceTracking_run None [(''s1'', Ended)] = (None, []) \<and>
   typeof (property [(''performance'', JFunction 0)] ''performance'') = ''function'' \<and>
   typeof (property [(''performance'', JFunction 0)] ''triggerInterval'') = ''undefined'' \<and>
   PerformanceTracking 7 (ConfigObject [(''performance'', JFunction 0)]) True ''s0'' =
     Inr (Some \<lparr>pauseTime = 0, pauseCount = 0, session = ''s0'', seekCount = 0, bufferCount = 0,
      totalDuration = Finite 0, watchedDuration = 0, bufferDuration = 0,
      initialLoadTime = 0, timestamps = [], player = 7, performance = JFunction 0,
      triggerOnPause = True, triggerInterval = Finite 10, beforeunload_listener = True\<rparr>)"
  using misconfigured_callback_deactivates
          [of "ConfigObject [(''performance'', JString ''f'')]" 7 True "''s0''"
              "[(''s1'', Ended)]" "[]"]
        misconfigured_callback_deactivates
          [of "ConfigObject [(''performance'', JFunction 0)]" 7 True "''s0''"
              "[]" "[(''performance'', JFunction 0)]"]
  by (simp add: property_def PerformanceTracking_def)

text \<open>
  The configuration that contradicts C8 as the specification words it: \<open>performance\<close> is
  a function and \<open>triggerInterval\<close> is the string \<open>10\<close>. The constructor leaves an
  active aggregator, and \<open>ended\<close> calls the callback.
\<close>

theorem non_numeric_interval_stays_active:
  "typeof (property [(''performance'', JFunction 0), (''triggerInterval'', JString ''10'')]
            ''triggerInterval'') = ''string'' \<and>
   PerformanceTracking 7
     (ConfigObject [(''performance'', JFunction 0), (''triggerInterval'', JString ''10'')])
     True ''s0'' =
     Inr (Some \<lparr>pauseTime = 0, pauseCount = 0, session = ''s0'', seekCount = 0, bufferCount = 0,
      totalDuration = Finite 0, watchedDuration = 0, bufferDuration = 0,
      initialLoadTime = 0, timestamps = [], player = 7, performance = JFunction 0,
      triggerOnPause = True, triggerInterval = Finite 10, beforeunload_listener = True\<rparr>) \<and>
   snd (PerformanceTracking_run (Some \<lparr>pauseTime = 0, pauseCount = 0, session = ''s0'', seekCount = 0, bufferCount = 0,
      totalDuration = Finite 0, watchedDuration = 0, bufferDuration = 0,
      initialLoadTime = 0, timestamps = [], player = 7, performance = JFunction 0,
      triggerOnPause = True, triggerInterval = Finite 10, beforeunload_listener = True\<rparr>) [(''s1'', Ended)]) =
     [\<lparr>callee = JFunction 0, this_arg = 7,
       data = \<lparr>pauseTime = 0, pauseCount = 0, session = ''s0'', seekCount = 0,
               bufferCount = 0, totalDuration = Finite 0, watchedDuration = 0,
               bufferDuration = 0, initialLoadTime = 0\<rparr>\<rparr>]"
  by (simp add: property_def PerformanceTracking_def PerformanceTracking_run_def
        triggerAndReset_def trigger_def PerformanceTracking_reset_def)

subsection \<open>The initial load time\<close>

text \<open>
  C9, as the code has it. Every \<open>tracking:firstplay\<close> event sets \<open>initialLoadTime\<close>
  to the \<open>secondsToLoad\<close> of its payload, whatever was recorded before, changes nothing
  else and makes no call. Of two such events in a session the second one's value
  stands, so the second leaves \<open>initialLoadTime\<close> unchanged exactly when it carries
  the value already recorded.
\<close>

theorem firstplay_sets_initialLoadTime:
  "PerformanceTracking_on u (Tracking (TrackingFirstplay x)) s = (s\<lparr>initialLoadTime := x\<rparr>, []) \<and>
   initialLoadTime (fst (PerformanceTracking_events s
     [(u, Tracking (TrackingFirstplay x)), (u', Tracking (TrackingFirstplay y))])) = y \<and>
   (initialLoadTime (fst (PerformanceTracking_events s
      [(u, Tracking (TrackingFirstplay x)), (u', Tracking (TrackingFirstplay y))])) =
    initialLoadTime (fst (PerformanceTracking_events s [(u, Tracking (TrackingFirstplay x))]))
    \<longleftrightarrow> y = x)"
  by simp

theorem firstplay_sets_initialLoadTime_witness:
  "PerformanceTracking_on ''s1'' (Tracking (TrackingFirstplay (3 / 2)))
     \<lparr>pauseTime = 0, pauseCount = 0, session = ''s0'', seekCount = 0, bufferCount = 0,
      totalDuration = Finite 0, watchedDuration = 0, bufferDuration = 0,
      initialLoadTime = 0, timestamps = [], player = 7, performance = JFunction 0,
      triggerOnPause = True, triggerInterval = Finite 10, beforeunload_listener = True\<rparr> =
   (\<lparr>pauseTime = 0, pauseCount = 0, session = ''s0'', seekCount = 0, bufferCount = 0,
      totalDuration = Finite 0, watchedDuration = 0, bufferDuration = 0,
      initialLoadTime = 0, timestamps = [], player = 7, performance = JFunction 0,
      triggerOnPause = True, triggerInterval = Finite 10, beforeunload_listener = True\<rparr>
      \<lparr>initialLoadTime := 3 / 2\<rparr>, [])"
  using firstplay_sets_initialLoadTime [of "''s1''" "3 / 2"
     "\<lparr>pauseTime = 0, pauseCount = 0, session = ''s0'', seekCount = 0, bufferCount = 0,
      totalDuration = Finite 0, watchedDuration = 0, bufferDuration = 0,
      initialLoadTime = 0, timestamps = [], player = 7, performance = JFunction 0,
      triggerOnPause = True, triggerInterval = Finite 10, beforeunload_listener = True\<rparr>" "''s1''" "3 / 2"]
  by (simp del: PerformanceTracking_on.simps)

text \<open>
  The run that contradicts C9 as the specification words it: a \<open>tracking:firstplay\<close>
  with 1.5 seconds sets \<open>initialLoadTime\<close>, and a second one in the same session, with
  2.5 seconds, replaces it.
\<close>

theorem second_firstplay_overwrites:
  "initialLoadTime (fst (PerformanceTracking_events
     \<lparr>pauseTime = 0, pauseCount = 0, session = ''s0'', seekCount = 0, bufferCount = 0,
      totalDuration = Finite 0, watchedDuration = 0, bufferDuration = 0,
      initialLoadTime = 0, timestamps = [], player = 7, performance = JFunction 0,
      triggerOnPause = True, triggerInterval = Finite 10, beforeunload_listener = True\<rparr>
     [(''s1'', Tracking (TrackingFirstplay (3 / 2)))])) = 3 / 2 \<and>
   session (fst (PerformanceTracking_events
     \<lparr>pauseTime = 0, pauseCount = 0, session = ''s0'', seekCount = 0, bufferCount = 0,
      totalDuration = Finite 0, watchedDuration = 0, bufferDuration = 0,
      initialLoadTime = 0, timestamps = [], player = 7, performance = JFunction 0,
      triggerOnPause = True, triggerInterval = Finite 10, beforeunload_listener = True\<rparr>
     [(''s1'', Tracking (TrackingFirstplay (3 / 2))),
      (''s1'', Tracking (TrackingFirstplay (5 / 2)))])) = ''s0'' \<and>
   initialLoadTime (fst (PerformanceTracking_events
     \<lparr>pauseTime = 0, pauseCount = 0, session = ''s0'', seekCount = 0, bufferCount = 0,
      totalDuration = Finite 0, watchedDuration = 0, bufferDuration = 0,
      initialLoadTime = 0, timestamps = [], player = 7, performance = JFunction 0,
      triggerOnPause = True, triggerInterval = Finite 10, beforeunload_listener = True\<rparr>
     [(''s1'', Tracking (TrackingFirstplay (3 / 2))),
      (''s1'', Tracking (TrackingFirstplay (5 / 2)))])) = 5 / 2"
  by simp

end
